theory Spec2Isabelle
  imports Complex_Main "HOL-Library.Sublist"
begin

section \<open>Data model (types.ts)\<close>

text \<open>
  JavaScript numbers are IEEE doubles. The development never looks inside them: the number
  type is a type variable \<open>'n\<close> that only carries the constants and operations the code
  applies (\<open>0\<close>, \<open>1\<close>, \<open>-\<close>, \<open>\<le>\<close>), with no law assumed about them. Counts and array
  positions are natural numbers.
\<close>

datatype DistanceMetric = cosine | euclidean

datatype 'n MetadataValue = MString string | MNumber 'n | MBoolean bool | MNull

text \<open>\<open>VectorMetadata = Record<string, string | number | boolean | null>\<close>; \<open>{}\<close> is \<open>[]\<close>.\<close>

type_synonym 'n VectorMetadata = "(string \<times> 'n MetadataValue) list"

record 'n UpsertParams =
  indexName :: string
  vectors :: "'n list list"
  metadata :: "'n VectorMetadata list option"
  ids :: "string list option"

record 'n QueryParams =
  q_indexName :: string
  queryVector :: "'n list"
  topK :: "nat option"
  q_filter :: "'n VectorMetadata option"
  includeVector :: "bool option"
  minScore :: "'n option"

record 'n QueryResult =
  r_id :: string
  score :: 'n
  r_metadata :: "'n VectorMetadata"
  r_vector :: "'n list option"

record CreateIndexParams =
  c_indexName :: string
  c_dimension :: nat
  c_metric :: "DistanceMetric option"

record IndexStats =
  s_dimension :: nat
  s_count :: nat
  s_metric :: DistanceMetric

record 'n VectorUpdate =
  u_vector :: "'n list option"
  u_metadata :: "'n VectorMetadata option"

record 'n UpdateVectorParams =
  uv_indexName :: string
  uv_id :: string
  update :: "'n VectorUpdate"

record DeleteVectorParams =
  dv_indexName :: string
  dv_id :: string

text \<open>
  Values that can be thrown and caught. \<open>VectorStoreError\<close> is the class of types.ts
  (\<open>message\<close>, \<open>code\<close>, optional \<open>details\<close>); \<open>JsError\<close> is any other \<open>Error\<close> object with
  its message; \<open>JsValue\<close> is a thrown value that is not an \<open>Error\<close>, with its \<open>String(...)\<close>
  rendering.
\<close>

datatype thrown =
    JsError string
  | JsValue string
  | VectorStoreError (message: string) (code: string) (details: "thrown option")

text \<open>\<open>error instanceof Error ? error.message : String(error)\<close>\<close>

fun error_text :: "thrown \<Rightarrow> string" where
  "error_text (JsError m) = m"
| "error_text (VectorStoreError m c d) = m"
| "error_text (JsValue s) = s"

section \<open>The remote service\<close>

record 'n PutInputVector =
  key :: string
  data :: "'n list"
  p_metadata :: "'n VectorMetadata option"

datatype 'n command =
    CreateIndexCommand string string string nat DistanceMetric
  | PutVectorsCommand string string "'n PutInputVector list"
  | QueryVectorsCommand string string "'n list" nat "'n VectorMetadata option" bool bool
  | ListIndexesCommand string
  | GetIndexCommand string string
  | DeleteIndexCommand string string
  | DeleteVectorsCommand string string "string list"

record 'n QueryOutputVector =
  o_key :: string
  distance :: "'n option"
  o_metadata :: "'n VectorMetadata option"
  o_data :: "'n list option"

record Index =
  dimension :: "nat option"
  distanceMetric :: "DistanceMetric option"

datatype 'n response =
    QueryVectorsOutput "'n QueryOutputVector list option"
  | GetIndexOutput "Index option"
  | ListIndexesOutput "string list option"
  | EmptyOutput

text \<open>
  The client is a parameter: given the commands sent so far and the command being sent, it
  either throws or answers. Every run of a real service is such a function, since no two
  calls of a run have the same history. The state threaded through the operations is the
  list of commands sent, so that remote calls can be counted.
\<close>

type_synonym 'n client = "'n command list \<Rightarrow> 'n command \<Rightarrow> thrown + 'n response"

definition client_send ::
  "'n client \<Rightarrow> 'n command \<Rightarrow> 'n command list \<Rightarrow> (thrown + 'n response) \<times> 'n command list" where
  "client_send send command sent = (send sent command, sent @ [command])"

record S3Vector =
  vectorBucketName :: string

section \<open>The store (s3-vector.ts)\<close>

subsection \<open>createIndex\<close>

definition createIndex ::
  "'n client \<Rightarrow> S3Vector \<Rightarrow> CreateIndexParams \<Rightarrow> 'n command list
     \<Rightarrow> (thrown + unit) \<times> 'n command list" where
  "createIndex send this params sent =
     (let command = CreateIndexCommand (vectorBucketName this) (c_indexName params) ''float32''
                      (c_dimension params)
                      (case c_metric params of Some m \<Rightarrow> m | None \<Rightarrow> cosine)
      in case client_send send command sent of
           (Inr response, sent') \<Rightarrow> (Inr (), sent')
         | (Inl error, sent') \<Rightarrow>
             (Inl (VectorStoreError
                     (''Failed to create index '' @ c_indexName params @ '': '' @ error_text error)
                     ''index_creation_failed'' (Some error)), sent'))"

subsection \<open>upsert\<close>

definition BATCH_SIZE :: nat where
  "BATCH_SIZE = 10"

text \<open>
  The template literal \<open>`vector_${i + index}`\<close> renders a non-negative integer in decimal
  (array positions are far below the range where JavaScript switches to exponent notation).
\<close>

definition digit_char :: "nat \<Rightarrow> char" where
  "digit_char d = ''0123456789'' ! d"

function nat_to_string :: "nat \<Rightarrow> string" where
  "nat_to_string n =
     (if n < 10 then [digit_char n] else nat_to_string (n div 10) @ [digit_char (n mod 10)])"
  by pat_completeness auto
termination
  by (relation "measure (\<lambda>n. n)") auto

declare nat_to_string.simps [simp del]

text \<open>\<open>params.ids?.[j] || `vector_${j}`\<close>: a missing array, a position past its end and
  the empty string all fall through to the generated key.\<close>

definition upsert_key :: "'n UpsertParams \<Rightarrow> nat \<Rightarrow> string" where
  "upsert_key params j =
     (case ids params of
        None \<Rightarrow> ''vector_'' @ nat_to_string j
      | Some xs \<Rightarrow>
          if j < length xs \<and> xs ! j \<noteq> [] then xs ! j else ''vector_'' @ nat_to_string j)"

text \<open>\<open>params.metadata?.[j] || {}\<close>\<close>

definition upsert_metadata :: "'n UpsertParams \<Rightarrow> nat \<Rightarrow> 'n VectorMetadata" where
  "upsert_metadata params j =
     (case metadata params of
        None \<Rightarrow> []
      | Some ms \<Rightarrow> if j < length ms then ms ! j else [])"

text \<open>\<open>batch.map((vector, index) => ({ key: ..., data: { float32: vector }, metadata: ... }))\<close>
  for the batch that starts at position \<open>i\<close>.\<close>

definition put_input_vectors ::
  "'n UpsertParams \<Rightarrow> nat \<Rightarrow> 'n list list \<Rightarrow> 'n PutInputVector list" where
  "put_input_vectors params i batch =
     map (\<lambda>(index, vector).
            \<lparr>key = upsert_key params (i + index),
             data = vector,
             p_metadata = Some (upsert_metadata params (i + index))\<rparr>)
         (enumerate 0 batch)"

text \<open>
  The \<open>for\<close> loop with its inner \<open>try\<close>/\<open>catch\<close>: \<open>slice(i, i + BATCH_SIZE)\<close> is
  \<open>take BATCH_SIZE (drop i ...)\<close>; a throw of the inner \<open>catch\<close> leaves the loop. (The
  \<open>console.log\<close> line of each round is not modelled.)
\<close>

function upsert_loop ::
  "'n client \<Rightarrow> S3Vector \<Rightarrow> 'n UpsertParams \<Rightarrow> nat \<Rightarrow> 'n command list
     \<Rightarrow> (thrown + unit) \<times> 'n command list" where
  "upsert_loop send this params i sent =
     (if i < length (vectors params) then
        (let batch = take BATCH_SIZE (drop i (vectors params));
             command = PutVectorsCommand (vectorBucketName this) (indexName params)
                         (put_input_vectors params i batch)
         in case client_send send command sent of
              (Inr response, sent') \<Rightarrow> upsert_loop send this params (i + BATCH_SIZE) sent'
            | (Inl error, sent') \<Rightarrow>
                (Inl (VectorStoreError
                        (''Failed to upsert vectors to index '' @ indexName params @ '': ''
                           @ error_text error)
                        ''upsert_failed'' (Some error)), sent'))
      else (Inr (), sent))"
  by pat_completeness auto
termination
  by (relation "measure (\<lambda>(send, this, params, i, sent). length (vectors params) - i)")
     (auto simp: BATCH_SIZE_def)

declare upsert_loop.simps [simp del]

text \<open>The outer \<open>try\<close>/\<open>catch\<close> around the loop and \<open>return params.ids || []\<close>.\<close>

definition upsert ::
  "'n client \<Rightarrow> S3Vector \<Rightarrow> 'n UpsertParams \<Rightarrow> 'n command list
     \<Rightarrow> (thrown + string list) \<times> 'n command list" where
  "upsert send this params sent =
     (case upsert_loop send this params 0 sent of
        (Inr u, sent') \<Rightarrow> (Inr (case ids params of Some xs \<Rightarrow> xs | None \<Rightarrow> []), sent')
      | (Inl error, sent') \<Rightarrow>
          (Inl (VectorStoreError
                  (''Failed to upsert vectors to index '' @ indexName params @ '': ''
                     @ error_text error)
                  ''upsert_failed'' (Some error)), sent'))"

subsection \<open>query\<close>

text \<open>\<open>topK: params.topK || 10\<close>\<close>

definition query_command :: "S3Vector \<Rightarrow> 'n QueryParams \<Rightarrow> 'n command" where
  "query_command this params =
     QueryVectorsCommand (vectorBucketName this) (q_indexName params) (queryVector params)
       (case topK params of None \<Rightarrow> 10 | Some k \<Rightarrow> if k = 0 then 10 else k)
       (q_filter params) True True"

text \<open>\<open>response.vectors || []\<close>\<close>

fun response_vectors :: "'n response \<Rightarrow> 'n QueryOutputVector list" where
  "response_vectors (QueryVectorsOutput (Some vs)) = vs"
| "response_vectors other = []"

text \<open>The callback of \<open>.filter\<close>.\<close>

definition query_filter ::
  "('n::{zero,one,minus,ord}) QueryParams \<Rightarrow> 'n QueryOutputVector \<Rightarrow> bool" where
  "query_filter params result =
     (case minScore params of
        Some m \<Rightarrow>
          (case distance result of
             Some d \<Rightarrow> (let score = 1 - d in score \<ge> m)
           | None \<Rightarrow> True)
      | None \<Rightarrow> True)"

text \<open>The callback of \<open>.map\<close>.\<close>

definition query_map ::
  "('n::{zero,one,minus,ord}) QueryParams \<Rightarrow> 'n QueryOutputVector \<Rightarrow> 'n QueryResult" where
  "query_map params result =
     \<lparr>r_id = o_key result,
      score = (case distance result of Some d \<Rightarrow> 1 - d | None \<Rightarrow> 0),
      r_metadata = (case o_metadata result of Some m \<Rightarrow> m | None \<Rightarrow> []),
      r_vector = (if includeVector params = Some True then o_data result else None)\<rparr>"

definition query ::
  "('n::{zero,one,minus,ord}) client \<Rightarrow> S3Vector \<Rightarrow> 'n QueryParams \<Rightarrow> 'n command list
     \<Rightarrow> (thrown + 'n QueryResult list) \<times> 'n command list" where
  "query send this params sent =
     (case client_send send (query_command this params) sent of
        (Inr response, sent') \<Rightarrow>
          (Inr (map (query_map params) (filter (query_filter params) (response_vectors response))),
           sent')
      | (Inl error, sent') \<Rightarrow>
          (Inl (VectorStoreError
                  (''Failed to query index '' @ q_indexName params @ '': '' @ error_text error)
                  ''query_failed'' (Some error)), sent'))"

subsection \<open>describeIndex, deleteIndex, listIndexes\<close>

text \<open>\<open>response.index?.dimension || 0\<close> and \<open>response.index?.distanceMetric || "cosine"\<close>\<close>

fun response_dimension :: "'n response \<Rightarrow> nat" where
  "response_dimension (GetIndexOutput (Some ix)) = (case dimension ix of Some n \<Rightarrow> n | None \<Rightarrow> 0)"
| "response_dimension other = 0"

fun response_metric :: "'n response \<Rightarrow> DistanceMetric" where
  "response_metric (GetIndexOutput (Some ix)) =
     (case distanceMetric ix of Some m \<Rightarrow> m | None \<Rightarrow> cosine)"
| "response_metric other = cosine"

definition describeIndex ::
  "'n client \<Rightarrow> S3Vector \<Rightarrow> string \<Rightarrow> 'n command list
     \<Rightarrow> (thrown + IndexStats) \<times> 'n command list" where
  "describeIndex send this name sent =
     (case client_send send (GetIndexCommand (vectorBucketName this) name) sent of
        (Inr response, sent') \<Rightarrow>
          (Inr \<lparr>s_dimension = response_dimension response,
                s_count = 0,
                s_metric = response_metric response\<rparr>, sent')
      | (Inl error, sent') \<Rightarrow>
          (Inl (VectorStoreError
                  (''Failed to describe index '' @ name @ '': '' @ error_text error)
                  ''describe_failed'' (Some error)), sent'))"

definition deleteIndex ::
  "'n client \<Rightarrow> S3Vector \<Rightarrow> string \<Rightarrow> 'n command list
     \<Rightarrow> (thrown + unit) \<times> 'n command list" where
  "deleteIndex send this name sent =
     (case client_send send (DeleteIndexCommand (vectorBucketName this) name) sent of
        (Inr response, sent') \<Rightarrow> (Inr (), sent')
      | (Inl error, sent') \<Rightarrow>
          (Inl (VectorStoreError
                  (''Failed to delete index '' @ name @ '': '' @ error_text error)
                  ''delete_index_failed'' (Some error)), sent'))"

text \<open>\<open>response.indexes || []\<close>\<close>

fun response_indexes :: "'n response \<Rightarrow> string list" where
  "response_indexes (ListIndexesOutput (Some xs)) = xs"
| "response_indexes other = []"

definition listIndexes ::
  "'n client \<Rightarrow> S3Vector \<Rightarrow> 'n command list \<Rightarrow> (thrown + string list) \<times> 'n command list" where
  "listIndexes send this sent =
     (case client_send send (ListIndexesCommand (vectorBucketName this)) sent of
        (Inr response, sent') \<Rightarrow> (Inr (response_indexes response), sent')
      | (Inl error, sent') \<Rightarrow>
          (Inl (VectorStoreError
                  (''Failed to list indexes: '' @ error_text error)
                  ''list_indexes_failed'' (Some error)), sent'))"

subsection \<open>updateVector, deleteVector\<close>

text \<open>
  The body of the \<open>try\<close> block of \<open>updateVector\<close>: the guard \<open>!params.update.vector\<close> holds
  exactly when no array was given (an array, even an empty one, is truthy), and its \<open>throw\<close>
  happens inside the \<open>try\<close>.
\<close>

definition updateVector_try ::
  "'n client \<Rightarrow> S3Vector \<Rightarrow> 'n UpdateVectorParams \<Rightarrow> 'n command list
     \<Rightarrow> (thrown + unit) \<times> 'n command list" where
  "updateVector_try send this params sent =
     (case u_vector (update params) of
        None \<Rightarrow>
          (Inl (VectorStoreError ''Vector data is required for update operation in S3 Vectors''
                  ''update_requires_vector_data'' None), sent)
      | Some v \<Rightarrow>
          (let vectors = [\<lparr>key = uv_id params, data = v,
                            p_metadata = u_metadata (update params)\<rparr>];
               command = PutVectorsCommand (vectorBucketName this) (uv_indexName params) vectors
           in case client_send send command sent of
                (Inr response, sent') \<Rightarrow> (Inr (), sent')
              | (Inl error, sent') \<Rightarrow> (Inl error, sent')))"

text \<open>The \<open>catch\<close> of \<open>updateVector\<close>, which receives whatever the \<open>try\<close> block threw.\<close>

definition updateVector ::
  "'n client \<Rightarrow> S3Vector \<Rightarrow> 'n UpdateVectorParams \<Rightarrow> 'n command list
     \<Rightarrow> (thrown + unit) \<times> 'n command list" where
  "updateVector send this params sent =
     (case updateVector_try send this params sent of
        (Inr u, sent') \<Rightarrow> (Inr (), sent')
      | (Inl error, sent') \<Rightarrow>
          (Inl (VectorStoreError
                  (''Failed to update vector '' @ uv_id params @ '' in index ''
                     @ uv_indexName params @ '': '' @ error_text error)
                  ''update_vector_failed'' (Some error)), sent'))"

definition deleteVector ::
  "'n client \<Rightarrow> S3Vector \<Rightarrow> DeleteVectorParams \<Rightarrow> 'n command list
     \<Rightarrow> (thrown + unit) \<times> 'n command list" where
  "deleteVector send this params sent =
     (case client_send send
             (DeleteVectorsCommand (vectorBucketName this) (dv_indexName params) [dv_id params])
             sent of
        (Inr response, sent') \<Rightarrow> (Inr (), sent')
      | (Inl error, sent') \<Rightarrow>
          (Inl (VectorStoreError
                  (''Failed to delete vector '' @ dv_id params @ '' from index ''
                     @ dv_indexName params @ '': '' @ error_text error)
                  ''delete_vector_failed'' (Some error)), sent'))"

section \<open>Vocabulary of the statements\<close>

text \<open>The records carried by a write command (none for any other command).\<close>

fun put_vectors :: "'n command \<Rightarrow> 'n PutInputVector list" where
  "put_vectors (PutVectorsCommand bucket ix rs) = rs"
| "put_vectors other = []"

text \<open>Whether a command is a \<open>PutVectors\<close> call for the given bucket and index.\<close>

fun is_put :: "string \<Rightarrow> string \<Rightarrow> 'n command \<Rightarrow> bool" where
  "is_put bucket ix (PutVectorsCommand bucket' ix' rs) = (bucket' = bucket \<and> ix' = ix)"
| "is_put bucket ix other = False"

text \<open>The command that the loop builds in the round that starts at position \<open>i\<close>.\<close>

definition batch_command :: "S3Vector \<Rightarrow> 'n UpsertParams \<Rightarrow> nat \<Rightarrow> 'n command" where
  "batch_command this params i =
     PutVectorsCommand (vectorBucketName this) (indexName params)
       (put_input_vectors params i (take BATCH_SIZE (drop i (vectors params))))"

text \<open>The commands of all rounds of a loop that is never interrupted, in order.\<close>

definition upsert_commands :: "S3Vector \<Rightarrow> 'n UpsertParams \<Rightarrow> 'n command list" where
  "upsert_commands this params =
     map (\<lambda>j. batch_command this params (j * BATCH_SIZE))
       [0 ..< (length (vectors params) + BATCH_SIZE - 1) div BATCH_SIZE]"

text \<open>The error that both \<open>catch\<close> blocks of \<open>upsert\<close> build from what they caught.\<close>

definition upsert_failed :: "'n UpsertParams \<Rightarrow> thrown \<Rightarrow> thrown" where
  "upsert_failed params error =
     VectorStoreError
       (''Failed to upsert vectors to index '' @ indexName params @ '': '' @ error_text error)
       ''upsert_failed'' (Some error)"

section \<open>Example inputs\<close>

definition store0 :: S3Vector where
  "store0 = \<lparr>vectorBucketName = ''bucket''\<rparr>"

definition params25 :: "real UpsertParams" where
  "params25 = \<lparr>indexName = ''docs'', vectors = replicate 25 [0, 1], metadata = None, ids = None\<rparr>"

definition params1 :: "real UpsertParams" where
  "params1 = \<lparr>indexName = ''docs'', vectors = [[0, 1]], metadata = None, ids = Some [''a'']\<rparr>"

definition remote_ok :: "real client" where
  "remote_ok sent command = Inr EmptyOutput"

definition remote_down :: "real client" where
  "remote_down sent command = Inl (JsError ''boom'')"

text \<open>A remote that fails the second call it receives and no other.\<close>

definition remote_fails_second :: "real client" where
  "remote_fails_second sent command =
     (if length sent = 1 then Inl (JsError ''boom'') else Inr EmptyOutput)"

definition candidates0 :: "real QueryOutputVector list" where
  "candidates0 =
     [\<lparr>o_key = ''a'', distance = Some (2 / 5), o_metadata = None, o_data = None\<rparr>,
      \<lparr>o_key = ''b'', distance = None, o_metadata = None, o_data = None\<rparr>,
      \<lparr>o_key = ''c'', distance = Some (9 / 10), o_metadata = None, o_data = None\<rparr>,
      \<lparr>o_key = ''d'', distance = Some (1 / 10), o_metadata = None, o_data = None\<rparr>]"

definition remote_query :: "real client" where
  "remote_query sent command = Inr (QueryVectorsOutput (Some candidates0))"

definition qparams :: "real QueryParams" where
  "qparams = \<lparr>q_indexName = ''docs'', queryVector = [1, 0], topK = None, q_filter = None,
               includeVector = None, minScore = Some (1 / 2)\<rparr>"

section \<open>The loop of upsert\<close>

lemma round_started: "j * BATCH_SIZE < n \<longleftrightarrow> j < (n + BATCH_SIZE - 1) div BATCH_SIZE"
proof -
  have "j < (n + 9) div 10 \<longleftrightarrow> Suc j \<le> (n + 9) div 10" by (simp add: Suc_le_eq)
  also have "\<dots> \<longleftrightarrow> Suc j * 10 \<le> n + 9" by (simp add: less_eq_div_iff_mult_less_eq)
  also have "\<dots> \<longleftrightarrow> j * 10 < n" by auto
  finally show ?thesis by (simp add: BATCH_SIZE_def add.commute)
qed

lemma upsert_loop_round:
  "upsert_loop send this params i sent =
     (if i < length (vectors params) then
        (case send sent (batch_command this params i) of
           Inr response \<Rightarrow>
             upsert_loop send this params (i + BATCH_SIZE) (sent @ [batch_command this params i])
         | Inl error \<Rightarrow>
             (Inl (upsert_failed params error), sent @ [batch_command this params i]))
      else (Inr (), sent))"
  by (subst upsert_loop.simps) (simp add: batch_command_def client_send_def upsert_failed_def Let_def split: sum.splits)

lemma upsert_loop_completes:
  assumes "\<And>j. j0 \<le> j \<Longrightarrow> j < n \<Longrightarrow>
             \<exists>r. send (sent @ map (\<lambda>j. batch_command this params (j * BATCH_SIZE)) [j0..<j])
                    (batch_command this params (j * BATCH_SIZE)) = Inr r"
    and "n = (length (vectors params) + BATCH_SIZE - 1) div BATCH_SIZE"
    and "j0 \<le> n"
  shows "upsert_loop send this params (j0 * BATCH_SIZE) sent =
           (Inr (), sent @ map (\<lambda>j. batch_command this params (j * BATCH_SIZE)) [j0..<n])"
  using assms
proof (induction "n - j0" arbitrary: j0 sent)
  case 0
  then have "j0 = n" by simp
  then have "\<not> j0 * BATCH_SIZE < length (vectors params)"
    using 0 round_started by blast
  then show ?case using \<open>j0 = n\<close> by (subst upsert_loop_round) simp
next
  case (Suc d)
  then have lt: "j0 < n" by simp
  then have started: "j0 * BATCH_SIZE < length (vectors params)"
    using Suc.prems(2) round_started by blast
  obtain r where r: "send sent (batch_command this params (j0 * BATCH_SIZE)) = Inr r"
    using Suc.prems(1) [of j0] lt by auto
  have step: "upsert_loop send this params (Suc j0 * BATCH_SIZE)
                (sent @ [batch_command this params (j0 * BATCH_SIZE)]) =
              (Inr (), (sent @ [batch_command this params (j0 * BATCH_SIZE)]) @
                 map (\<lambda>j. batch_command this params (j * BATCH_SIZE)) [Suc j0..<n])"
  proof (rule Suc.hyps(1))
    show "d = n - Suc j0" using Suc.hyps(2) by simp
    show "n = (length (vectors params) + BATCH_SIZE - 1) div BATCH_SIZE" by (rule Suc.prems(2))
    show "Suc j0 \<le> n" using lt by simp
    fix j assume j: "Suc j0 \<le> j" "j < n"
    then have "[j0..<j] = j0 # [Suc j0..<j]" by (simp add: upt_conv_Cons)
    then show "\<exists>r. send ((sent @ [batch_command this params (j0 * BATCH_SIZE)]) @
                  map (\<lambda>j. batch_command this params (j * BATCH_SIZE)) [Suc j0..<j])
                 (batch_command this params (j * BATCH_SIZE)) = Inr r"
      using Suc.prems(1) [of j] j by simp
  qed
  have "[j0..<n] = j0 # [Suc j0..<n]" using lt by (simp add: upt_conv_Cons)
  then show ?case
    using started r step by (subst upsert_loop_round) (simp add: add.commute)
qed

lemma upsert_loop_aborts:
  assumes "\<And>j. j0 \<le> j \<Longrightarrow> j < k \<Longrightarrow>
             \<exists>r. send (sent @ map (\<lambda>j. batch_command this params (j * BATCH_SIZE)) [j0..<j])
                    (batch_command this params (j * BATCH_SIZE)) = Inr r"
    and "send (sent @ map (\<lambda>j. batch_command this params (j * BATCH_SIZE)) [j0..<k])
           (batch_command this params (k * BATCH_SIZE)) = Inl err"
    and "k < (length (vectors params) + BATCH_SIZE - 1) div BATCH_SIZE"
    and "j0 \<le> k"
  shows "upsert_loop send this params (j0 * BATCH_SIZE) sent =
           (Inl (upsert_failed params err),
            sent @ map (\<lambda>j. batch_command this params (j * BATCH_SIZE)) [j0..<Suc k])"
  using assms
proof (induction "k - j0" arbitrary: j0 sent)
  case 0
  then have eq: "j0 = k" by simp
  then have started: "j0 * BATCH_SIZE < length (vectors params)"
    using 0 round_started by blast
  have "send sent (batch_command this params (j0 * BATCH_SIZE)) = Inl err"
    using "0.prems"(2) eq by simp
  then show ?case
    using started eq by (subst upsert_loop_round) simp
next
  case (Suc d)
  then have lt: "j0 < k" by simp
  then have "j0 < (length (vectors params) + BATCH_SIZE - 1) div BATCH_SIZE"
    using Suc.prems(3) by simp
  then have started: "j0 * BATCH_SIZE < length (vectors params)"
    using round_started by blast
  obtain r where r: "send sent (batch_command this params (j0 * BATCH_SIZE)) = Inr r"
    using Suc.prems(1) [of j0] lt by auto
  have split_k: "[j0..<k] = j0 # [Suc j0..<k]" using lt by (simp add: upt_conv_Cons)
  have step: "upsert_loop send this params (Suc j0 * BATCH_SIZE)
                (sent @ [batch_command this params (j0 * BATCH_SIZE)]) =
              (Inl (upsert_failed params err),
               (sent @ [batch_command this params (j0 * BATCH_SIZE)]) @
                 map (\<lambda>j. batch_command this params (j * BATCH_SIZE)) [Suc j0..<Suc k])"
  proof (rule Suc.hyps(1))
    show "d = k - Suc j0" using Suc.hyps(2) by simp
    show "k < (length (vectors params) + BATCH_SIZE - 1) div BATCH_SIZE" by (rule Suc.prems(3))
    show "Suc j0 \<le> k" using lt by simp
    show "send ((sent @ [batch_command this params (j0 * BATCH_SIZE)]) @
                  map (\<lambda>j. batch_command this params (j * BATCH_SIZE)) [Suc j0..<k])
            (batch_command this params (k * BATCH_SIZE)) = Inl err"
      using Suc.prems(2) split_k by simp
    fix j assume j: "Suc j0 \<le> j" "j < k"
    then have "[j0..<j] = j0 # [Suc j0..<j]" by (simp add: upt_conv_Cons)
    then show "\<exists>r. send ((sent @ [batch_command this params (j0 * BATCH_SIZE)]) @
                  map (\<lambda>j. batch_command this params (j * BATCH_SIZE)) [Suc j0..<j])
                 (batch_command this params (j * BATCH_SIZE)) = Inr r"
      using Suc.prems(1) [of j] j by simp
  qed
  have "[j0..<Suc k] = j0 # [Suc j0..<Suc k]" using lt by (simp add: upt_conv_Cons)
  then show ?case
    using started r step by (subst upsert_loop_round) (simp add: add.commute)
qed



lemma take_upsert_commands:
  "m \<le> length (upsert_commands this params) \<Longrightarrow>
   take m (upsert_commands this params) =
     map (\<lambda>j. batch_command this params (j * BATCH_SIZE)) [0..<m]"
  by (simp add: upsert_commands_def take_map)

lemma nth_upsert_commands:
  "k < length (upsert_commands this params) \<Longrightarrow>
   upsert_commands this params ! k = batch_command this params (k * BATCH_SIZE)"
  by (simp add: upsert_commands_def)

lemma length_upsert_commands:
  "length (upsert_commands this params) = (length (vectors params) + BATCH_SIZE - 1) div BATCH_SIZE"
  by (simp add: upsert_commands_def)

text \<open>Any run of the loop sends a prefix of the planned commands.\<close>

lemma upsert_loop_cases:
  fixes send :: "'n client"
  shows "upsert_loop send this params 0 sent = (Inr (), sent @ upsert_commands this params)
       \<and> (\<forall>j < length (upsert_commands this params). \<exists>r.
             send (sent @ take j (upsert_commands this params)) (upsert_commands this params ! j) = Inr r)
     \<or> (\<exists>k err. k < length (upsert_commands this params)
          \<and> (\<forall>j<k. \<exists>r. send (sent @ take j (upsert_commands this params))
                           (upsert_commands this params ! j) = Inr r)
          \<and> send (sent @ take k (upsert_commands this params)) (upsert_commands this params ! k) = Inl err
          \<and> upsert_loop send this params 0 sent =
              (Inl (upsert_failed params err),
               sent @ take (Suc k) (upsert_commands this params)))"
proof -
  let ?cs = "upsert_commands this params"
  let ?bad = "\<lambda>k. k < length ?cs \<and> (\<exists>err. send (sent @ take k ?cs) (?cs ! k) = Inl err)"
  show ?thesis
  proof (cases "\<exists>k. ?bad k")
    case False
    have ok: "\<exists>r. send (sent @ take j ?cs) (?cs ! j) = Inr r" if j: "j < length ?cs" for j
    proof (cases "send (sent @ take j ?cs) (?cs ! j)")
      case (Inl err)
      with j have "?bad j" by simp
      with False show ?thesis by blast
    next
      case (Inr r)
      then show ?thesis by simp
    qed
    have "upsert_loop send this params (0 * BATCH_SIZE) sent =
            (Inr (), sent @ map (\<lambda>j. batch_command this params (j * BATCH_SIZE)) [0..<length ?cs])"
    proof (rule upsert_loop_completes)
      show "length ?cs = (length (vectors params) + BATCH_SIZE - 1) div BATCH_SIZE"
        by (rule length_upsert_commands)
      show "0 \<le> length ?cs" by simp
      fix j assume "0 \<le> j" "j < length ?cs"
      then show "\<exists>r. send (sent @ map (\<lambda>j. batch_command this params (j * BATCH_SIZE)) [0..<j])
                       (batch_command this params (j * BATCH_SIZE)) = Inr r"
        using ok [of j] by (simp add: take_upsert_commands nth_upsert_commands)
    qed
    then have "upsert_loop send this params 0 sent = (Inr (), sent @ ?cs)"
      using take_upsert_commands [of "length ?cs" this params] by simp
    then show ?thesis using ok by simp
  next
    case True
    define k where "k = (LEAST k. ?bad k)"
    have bad: "?bad k" unfolding k_def using True by (rule LeastI_ex)
    have least: "\<And>j. j < k \<Longrightarrow> \<not> ?bad j" unfolding k_def by (rule not_less_Least)
    from bad obtain err where k: "k < length ?cs" and err: "send (sent @ take k ?cs) (?cs ! k) = Inl err"
      by blast
    have ok: "\<exists>r. send (sent @ take j ?cs) (?cs ! j) = Inr r" if j: "j < k" for j
    proof (cases "send (sent @ take j ?cs) (?cs ! j)")
      case (Inl e)
      moreover have "j < length ?cs" using j k by simp
      ultimately have "?bad j" by simp
      with least [OF j] show ?thesis by simp
    next
      case (Inr r)
      then show ?thesis by simp
    qed
    have "upsert_loop send this params (0 * BATCH_SIZE) sent =
           (Inl (upsert_failed params err),
            sent @ map (\<lambda>j. batch_command this params (j * BATCH_SIZE)) [0..<Suc k])"
    proof (rule upsert_loop_aborts)
      show "k < (length (vectors params) + BATCH_SIZE - 1) div BATCH_SIZE"
        using k by (simp add: length_upsert_commands)
      show "0 \<le> k" by simp
      show "send (sent @ map (\<lambda>j. batch_command this params (j * BATCH_SIZE)) [0..<k])
              (batch_command this params (k * BATCH_SIZE)) = Inl err"
        using err k by (simp add: take_upsert_commands nth_upsert_commands)
      fix j assume "0 \<le> j" "j < k"
      then show "\<exists>r. send (sent @ map (\<lambda>j. batch_command this params (j * BATCH_SIZE)) [0..<j])
                       (batch_command this params (j * BATCH_SIZE)) = Inr r"
        using ok [of j] k by (simp add: take_upsert_commands nth_upsert_commands)
    qed
    then have "upsert_loop send this params 0 sent =
           (Inl (upsert_failed params err),
            sent @ take (Suc k) ?cs)"
      using take_upsert_commands [of "Suc k" this params] k by simp
    then have "\<exists>k err. k < length ?cs
          \<and> (\<forall>j<k. \<exists>r. send (sent @ take j ?cs) (?cs ! j) = Inr r)
          \<and> send (sent @ take k ?cs) (?cs ! k) = Inl err
          \<and> upsert_loop send this params 0 sent =
              (Inl (upsert_failed params err), sent @ take (Suc k) ?cs)"
      using k err ok by (intro exI [of _ k] exI [of _ err]) simp
    then show ?thesis by (rule disjI2)
  qed
qed

section \<open>The commands of upsert and their records\<close>

lemma length_put_input_vectors [simp]: "length (put_input_vectors params i batch) = length batch"
  by (simp add: put_input_vectors_def)

lemma nth_put_input_vectors:
  "m < length batch \<Longrightarrow>
   put_input_vectors params i batch ! m =
     \<lparr>key = upsert_key params (i + m), data = batch ! m,
      p_metadata = Some (upsert_metadata params (i + m))\<rparr>"
  by (simp add: put_input_vectors_def nth_enumerate_eq)

lemma map_data_put_input_vectors: "map data (put_input_vectors params i batch) = batch"
  by (rule nth_equalityI) (simp_all add: nth_put_input_vectors)

lemma put_input_vectors_slice:
  "put_input_vectors params i (take b (drop i vs)) = take b (drop i (put_input_vectors params 0 vs))"
proof (rule nth_equalityI)
  show "length (put_input_vectors params i (take b (drop i vs))) =
        length (take b (drop i (put_input_vectors params 0 vs)))"
    by simp
next
  fix m assume "m < length (put_input_vectors params i (take b (drop i vs)))"
  then have m: "m < b" "i + m < length vs" "i \<le> length vs" by auto
  then have "take b (drop i (put_input_vectors params 0 vs)) ! m =
             put_input_vectors params 0 vs ! (i + m)"
    by simp
  also have "\<dots> = \<lparr>key = upsert_key params (i + m), data = vs ! (i + m),
                      p_metadata = Some (upsert_metadata params (i + m))\<rparr>"
    using m by (simp add: nth_put_input_vectors)
  also have "\<dots> = put_input_vectors params i (take b (drop i vs)) ! m"
    using m by (simp add: nth_put_input_vectors)
  finally show "put_input_vectors params i (take b (drop i vs)) ! m =
                take b (drop i (put_input_vectors params 0 vs)) ! m"
    by simp
qed

lemma concat_slices: "concat (map (\<lambda>j. take b (drop (j * b) xs)) [0..<m]) = take (m * b) xs"
proof (induction m)
  case 0
  show ?case by simp
next
  case (Suc m)
  have "take (m * b + b) xs = take (m * b) xs @ take b (drop (m * b) xs)"
    by (rule take_add)
  then show ?case using Suc by (simp add: add.commute)
qed

lemma put_vectors_batch_command:
  "put_vectors (batch_command this params i) =
     take BATCH_SIZE (drop i (put_input_vectors params 0 (vectors params)))"
  by (simp add: batch_command_def put_input_vectors_slice)

lemma is_put_batch_command:
  "is_put (vectorBucketName this) (indexName params) (batch_command this params i)"
  by (simp add: batch_command_def)

lemma put_vectors_take_upsert_commands:
  assumes "m \<le> length (upsert_commands this params)"
  shows "concat (map put_vectors (take m (upsert_commands this params))) =
           take (m * BATCH_SIZE) (put_input_vectors params 0 (vectors params))"
proof -
  have "map put_vectors (take m (upsert_commands this params)) =
        map (\<lambda>j. take BATCH_SIZE (drop (j * BATCH_SIZE) (put_input_vectors params 0 (vectors params))))
          [0..<m]"
    by (simp add: take_upsert_commands [OF assms] put_vectors_batch_command)
  then show ?thesis by (simp only: concat_slices)
qed

lemma upsert_commands_cover:
  "length (vectors params) \<le> length (upsert_commands this params) * BATCH_SIZE"
proof -
  have "n \<le> (n + 9) div 10 * 10" for n :: nat by arith
  then show ?thesis by (simp add: length_upsert_commands BATCH_SIZE_def add.commute)
qed

lemma put_vectors_upsert_commands:
  "concat (map put_vectors (upsert_commands this params)) =
     put_input_vectors params 0 (vectors params)"
  using put_vectors_take_upsert_commands [of "length (upsert_commands this params)" this params]
    upsert_commands_cover [of params this]
  by simp

lemma upsert_commands_are_puts:
  "c \<in> set (upsert_commands this params) \<Longrightarrow>
   is_put (vectorBucketName this) (indexName params) c \<and> length (put_vectors c) \<le> BATCH_SIZE"
  by (auto simp: upsert_commands_def is_put_batch_command put_vectors_batch_command)

lemma chunk_count: "nat \<lceil>real n / 10\<rceil> = (n + 9) div 10"
proof -
  have "\<lceil>real n / 10\<rceil> = \<lceil>of_int (int n) / (of_int 10 :: real)\<rceil>" by simp
  also have "\<dots> = - (- int n div 10)" by (rule ceiling_divide_eq_div)
  also have "\<dots> = (int n + 9) div 10" by presburger
  finally show ?thesis by (simp add: nat_div_distrib nat_add_distrib)
qed

section \<open>updateVector and query\<close>

lemma query_answered:
  assumes "send sent (query_command this params) = Inr response"
  shows "query send this params sent =
           (Inr (map (query_map params) (filter (query_filter params) (response_vectors response))),
            sent @ [query_command this params])"
  using assms by (simp add: query_def client_send_def)

lemma query_map_id: "r_id (query_map params c) = o_key c"
  by (simp add: query_map_def)

lemma query_map_score_Some: "distance c = Some d \<Longrightarrow> score (query_map params c) = 1 - d"
  by (simp add: query_map_def)

lemma query_map_score_None: "distance c = None \<Longrightarrow> score (query_map params c) = 0"
  by (simp add: query_map_def)

lemma query_filter_Some:
  "minScore params = Some s \<Longrightarrow> distance c = Some d \<Longrightarrow> query_filter params c \<Longrightarrow> s \<le> 1 - d"
  by (simp add: query_filter_def)

lemma query_filter_None: "distance c = None \<Longrightarrow> query_filter params c"
  by (simp add: query_filter_def split: option.splits)

lemma filter_no_distance:
  "filter (\<lambda>c. distance c = None) (filter (query_filter params) cs) =
   filter (\<lambda>c. distance c = None) cs"
  by (induction cs) (auto simp: query_filter_None)

text \<open>
  Claim C2. A call of \<open>updateVector\<close> whose update carries no vector sends nothing to the
  remote service, and the error with code \<open>update_requires_vector_data\<close> is thrown inside
  the \<open>try\<close> block: the \<open>catch\<close> of the same method receives it, so what the caller gets
  is an error with code \<open>update_vector_failed\<close> whose details are the local error. The claim's
  code is therefore not the one the caller sees; the absence of remote calls holds (the
  list of sent commands is unchanged).
\<close>

theorem updateVector_without_vector:
  "updateVector send this
     \<lparr>uv_indexName = ix, uv_id = v, update = \<lparr>u_vector = None, u_metadata = m\<rparr>\<rparr> sent =
   (Inl (VectorStoreError
           (''Failed to update vector '' @ v @ '' in index '' @ ix @
              '': Vector data is required for update operation in S3 Vectors'')
           ''update_vector_failed''
           (Some (VectorStoreError ''Vector data is required for update operation in S3 Vectors''
                    ''update_requires_vector_data'' None))),
    sent)"
  by (simp add: updateVector_def updateVector_try_def)

text \<open>
  Claim C8. When the remote call of \<open>query\<close> answers, the results correspond one to one, in
  order, to candidates of the response, and the result of a candidate that reports a
  distance \<open>d\<close> has the score \<open>1 - d\<close>, the number type's own subtraction.
\<close>

theorem query_score_of_distance:
  assumes "send sent (query_command this params) = Inr response"
  shows "\<exists>kept results.
           query send this params sent = (Inr results, sent @ [query_command this params])
         \<and> subseq kept (response_vectors response)
         \<and> list_all2 (\<lambda>c r. r_id r = o_key c \<and> (\<forall>d. distance c = Some d \<longrightarrow> score r = 1 - d))
              kept results"
proof -
  let ?kept = "filter (query_filter params) (response_vectors response)"
  have "list_all2 (\<lambda>c r. r_id r = o_key c \<and> (\<forall>d. distance c = Some d \<longrightarrow> score r = 1 - d))
          ?kept (map (query_map params) ?kept)"
    by (simp add: list_all2_map2 list.rel_refl query_map_id query_map_score_Some)
  then show ?thesis
    using assms query_answered [of send sent this params response]
    by (intro exI [of _ ?kept] exI) simp
qed

theorem query_score_of_distance_witness:
  "remote_query [] (query_command store0 qparams) = Inr (QueryVectorsOutput (Some candidates0))
   \<and> (\<exists>results. query remote_query store0 qparams [] = (Inr results, [query_command store0 qparams])
          \<and> map r_id results = [''a'', ''b'', ''d'']
          \<and> map score results = [1 - 2 / 5, 0, 1 - 1 / 10])"
  using query_score_of_distance [of remote_query "[]" store0 qparams "QueryVectorsOutput (Some candidates0)"]
  by (simp add: remote_query_def query_def client_send_def candidates0_def qparams_def
        query_filter_def query_map_def)

text \<open>
  Claim C3. With \<open>minScore = s\<close>, every result whose candidate reports a distance has a
  score that passes the comparison \<open>score \<ge> s\<close> of the code, hence is not strictly less
  than \<open>s\<close> in any number type where \<open>a \<ge> b\<close> excludes \<open>a < b\<close> (the doubles, the
  reals); and the candidates without a distance survive the filter, all of them and in
  order. The computed score is the one obtained from a reported distance: a candidate
  without distance has none and is exempt, as the claim says.
\<close>

theorem query_minScore_filter:
  fixes params :: "('n::{zero,one,minus,ord}) QueryParams"
  assumes "send sent (query_command this params) = Inr response"
    and "minScore params = Some s"
    and "\<And>a b :: 'n. b \<le> a \<Longrightarrow> \<not> a < b"
  shows "\<exists>kept results.
           query send this params sent = (Inr results, sent @ [query_command this params])
         \<and> subseq kept (response_vectors response)
         \<and> list_all2 (\<lambda>c r. r_id r = o_key c \<and>
                (\<forall>d. distance c = Some d \<longrightarrow> score r = 1 - d \<and> score r \<ge> s \<and> \<not> score r < s))
              kept results
         \<and> filter (\<lambda>c. distance c = None) kept =
             filter (\<lambda>c. distance c = None) (response_vectors response)"
proof -
  let ?kept = "filter (query_filter params) (response_vectors response)"
  have each: "r_id (query_map params c) = o_key c \<and>
        (\<forall>d. distance c = Some d \<longrightarrow>
           score (query_map params c) = 1 - d \<and> score (query_map params c) \<ge> s
           \<and> \<not> score (query_map params c) < s)"
    if "c \<in> set ?kept" for c
  proof -
    have keep: "query_filter params c" using that by simp
    have "s \<le> 1 - d \<and> \<not> 1 - d < s" if d: "distance c = Some d" for d
      using query_filter_Some [OF assms(2) d keep] assms(3) by simp
    then show ?thesis by (simp add: query_map_id query_map_score_Some)
  qed
  have "list_all2 (\<lambda>c r. r_id r = o_key c \<and>
                (\<forall>d. distance c = Some d \<longrightarrow> score r = 1 - d \<and> score r \<ge> s \<and> \<not> score r < s))
          ?kept (map (query_map params) ?kept)"
    unfolding list_all2_map2 by (rule list.rel_refl_strong) (rule each)
  then show ?thesis
    using assms(1) query_answered [of send sent this params response] filter_no_distance [of params]
    by (intro exI [of _ ?kept] exI) simp
qed

theorem query_minScore_filter_witness:
  "remote_query [] (query_command store0 qparams) = Inr (QueryVectorsOutput (Some candidates0))
   \<and> minScore qparams = Some (1 / 2)
   \<and> (\<exists>results. query remote_query store0 qparams [] = (Inr results, [query_command store0 qparams])
          \<and> map r_id results = [''a'', ''b'', ''d'']
          \<and> map score results = [3 / 5, 0, 9 / 10])"
  using query_minScore_filter [of remote_query "[]" store0 qparams
          "QueryVectorsOutput (Some candidates0)" "1 / 2"]
  by (simp add: remote_query_def query_def client_send_def candidates0_def qparams_def
        query_filter_def query_map_def)

text \<open>
  Claim C9. The results of \<open>query\<close> are the images of a subsequence of the candidates of the
  remote response, in the remote's order: the ids of the results are a subsequence of the
  keys of the response. Nothing is sorted.
\<close>

theorem query_keeps_remote_order:
  assumes "send sent (query_command this params) = Inr response"
  shows "\<exists>kept results.
           query send this params sent = (Inr results, sent @ [query_command this params])
         \<and> subseq kept (response_vectors response)
         \<and> results = map (query_map params) kept
         \<and> map r_id results = map o_key kept
         \<and> subseq (map r_id results) (map o_key (response_vectors response))"
proof -
  let ?kept = "filter (query_filter params) (response_vectors response)"
  let ?results = "map (query_map params) ?kept"
  have ids: "map r_id ?results = map o_key ?kept"
    by (simp add: query_map_id)
  have "subseq (map o_key ?kept) (map o_key (response_vectors response))"
    by (rule subseq_map) simp
  then have sub: "subseq (map r_id ?results) (map o_key (response_vectors response))"
    by (simp only: ids)
  have run: "query send this params sent = (Inr ?results, sent @ [query_command this params])"
    using assms by (rule query_answered)
  have kept: "subseq ?kept (response_vectors response)"
    by simp
  show ?thesis
    by (intro exI [of _ ?kept] exI [of _ ?results] conjI) (rule run kept refl ids sub)+
qed

theorem query_keeps_remote_order_witness:
  "remote_query [] (query_command store0 qparams) = Inr (QueryVectorsOutput (Some candidates0))
   \<and> map o_key candidates0 = [''a'', ''b'', ''c'', ''d'']
   \<and> (\<exists>results. fst (query remote_query store0 qparams []) = Inr results
          \<and> map r_id results = [''a'', ''b'', ''d'']
          \<and> map score results = [3 / 5, 0, 9 / 10])"
  using query_keeps_remote_order [of remote_query "[]" store0 qparams
          "QueryVectorsOutput (Some candidates0)"]
  by (simp add: remote_query_def query_def client_send_def candidates0_def qparams_def
        query_filter_def query_map_def)

text \<open>
  Claim C10. A candidate of the response without a distance is returned with score \<open>0\<close>,
  whatever \<open>minScore\<close> is, so also when \<open>minScore\<close> is greater than \<open>0\<close>.
\<close>

theorem query_missing_distance_scores_zero:
  assumes "send sent (query_command this params) = Inr response"
    and "c \<in> set (response_vectors response)"
    and "distance c = None"
  shows "\<exists>results r.
           query send this params sent = (Inr results, sent @ [query_command this params])
         \<and> r \<in> set results \<and> r = query_map params c \<and> r_id r = o_key c \<and> score r = 0"
proof -
  have "c \<in> set (filter (query_filter params) (response_vectors response))"
    using assms(2,3) by (simp add: query_filter_None)
  then have "query_map params c \<in>
      set (map (query_map params) (filter (query_filter params) (response_vectors response)))"
    by simp
  then show ?thesis
    using assms(1,3) query_answered [of send sent this params response]
    by (simp add: query_map_id query_map_score_None)
qed

theorem query_missing_distance_scores_zero_witness:
  "remote_query [] (query_command store0 qparams) = Inr (QueryVectorsOutput (Some candidates0))
   \<and> candidates0 ! 1 \<in> set (response_vectors (QueryVectorsOutput (Some candidates0)))
   \<and> distance (candidates0 ! 1) = None
   \<and> minScore qparams = Some (1 / 2) \<and> (0 :: real) < 1 / 2
   \<and> (\<exists>results r. fst (query remote_query store0 qparams []) = Inr results
          \<and> r \<in> set results \<and> r_id r = ''b'' \<and> score r = 0)"
  using query_missing_distance_scores_zero [of remote_query "[]" store0 qparams
          "QueryVectorsOutput (Some candidates0)" "candidates0 ! 1"]
  by (fastforce simp: remote_query_def candidates0_def qparams_def query_map_def)

section \<open>upsert\<close>

lemma upsert_of_loop:
  "upsert send this params sent =
     (case upsert_loop send this params 0 sent of
        (Inr u, sent') \<Rightarrow> (Inr (case ids params of Some xs \<Rightarrow> xs | None \<Rightarrow> []), sent')
      | (Inl error, sent') \<Rightarrow> (Inl (upsert_failed params error), sent'))"
  unfolding upsert_def upsert_failed_def by (rule refl)

lemma upsert_success_sent:
  assumes "upsert send this params sent = (Inr returned, sent')"
  shows "sent' = sent @ upsert_commands this params
       \<and> returned = (case ids params of Some xs \<Rightarrow> xs | None \<Rightarrow> [])"
  using upsert_loop_cases [of send this params sent] assms
  by (auto simp: upsert_of_loop)

lemma upsert_sent_prefix:
  "\<exists>m \<le> length (upsert_commands this params).
     snd (upsert send this params sent) = sent @ take m (upsert_commands this params)"
proof -
  let ?cs = "upsert_commands this params"
  from upsert_loop_cases [of send this params sent]
  consider "snd (upsert send this params sent) = sent @ take (length ?cs) ?cs"
    | k where "k < length ?cs" "snd (upsert send this params sent) = sent @ take (Suc k) ?cs"
    by (auto simp: upsert_of_loop)
  then show ?thesis
  proof cases
    case 1
    then show ?thesis by blast
  next
    case (2 k)
    then have "Suc k \<le> length ?cs" by simp
    with 2 show ?thesis by blast
  qed
qed

lemma upsert_aborts:
  assumes "k < length (upsert_commands this params)"
    and "\<forall>j<k. \<exists>r. send (sent @ take j (upsert_commands this params))
                      (upsert_commands this params ! j) = Inr r"
    and "send (sent @ take k (upsert_commands this params)) (upsert_commands this params ! k) = Inl err"
  shows "upsert send this params sent =
           (Inl (upsert_failed params (upsert_failed params err)),
            sent @ take (Suc k) (upsert_commands this params))"
proof -
  let ?cs = "upsert_commands this params"
  have "upsert_loop send this params (0 * BATCH_SIZE) sent =
          (Inl (upsert_failed params err),
           sent @ map (\<lambda>j. batch_command this params (j * BATCH_SIZE)) [0..<Suc k])"
  proof (rule upsert_loop_aborts)
    show "k < (length (vectors params) + BATCH_SIZE - 1) div BATCH_SIZE"
      using assms(1) by (simp add: length_upsert_commands)
    show "0 \<le> k" by simp
    show "send (sent @ map (\<lambda>j. batch_command this params (j * BATCH_SIZE)) [0..<k])
            (batch_command this params (k * BATCH_SIZE)) = Inl err"
      using assms(1,3) by (simp add: take_upsert_commands nth_upsert_commands)
    fix j assume "0 \<le> j" "j < k"
    then show "\<exists>r. send (sent @ map (\<lambda>j. batch_command this params (j * BATCH_SIZE)) [0..<j])
                     (batch_command this params (j * BATCH_SIZE)) = Inr r"
      using assms(1,2) by (simp add: take_upsert_commands nth_upsert_commands)
  qed
  then have "upsert_loop send this params 0 sent =
          (Inl (upsert_failed params err), sent @ take (Suc k) ?cs)"
    using take_upsert_commands [of "Suc k" this params] assms(1) by simp
  then show ?thesis by (simp add: upsert_of_loop)
qed

lemma upsert_completes:
  assumes "\<forall>j<length (upsert_commands this params).
             \<exists>r. send (sent @ take j (upsert_commands this params))
                    (upsert_commands this params ! j) = Inr r"
  shows "upsert send this params sent =
           (Inr (case ids params of Some xs \<Rightarrow> xs | None \<Rightarrow> []),
            sent @ upsert_commands this params)"
proof -
  let ?cs = "upsert_commands this params"
  have "upsert_loop send this params (0 * BATCH_SIZE) sent =
          (Inr (), sent @ map (\<lambda>j. batch_command this params (j * BATCH_SIZE)) [0..<length ?cs])"
  proof (rule upsert_loop_completes)
    show "length ?cs = (length (vectors params) + BATCH_SIZE - 1) div BATCH_SIZE"
      by (rule length_upsert_commands)
    show "0 \<le> length ?cs" by simp
    fix j assume "0 \<le> j" "j < length ?cs"
    then show "\<exists>r. send (sent @ map (\<lambda>j. batch_command this params (j * BATCH_SIZE)) [0..<j])
                     (batch_command this params (j * BATCH_SIZE)) = Inr r"
      using assms by (simp add: take_upsert_commands nth_upsert_commands)
  qed
  then have "upsert_loop send this params 0 sent = (Inr (), sent @ ?cs)"
    using take_upsert_commands [of "length ?cs" this params] by simp
  then show ?thesis by (simp add: upsert_of_loop)
qed

lemma length_commands25: "length (upsert_commands store0 params25) = 3"
  by (simp add: length_upsert_commands params25_def BATCH_SIZE_def)

lemma upsert25_ok:
  "upsert remote_ok store0 params25 [] = (Inr [], upsert_commands store0 params25)"
  using upsert_completes [of store0 params25 remote_ok "[]"]
  by (simp add: remote_ok_def params25_def)

lemma upsert25_down:
  "upsert remote_down store0 params25 [] =
     (Inl (upsert_failed params25 (upsert_failed params25 (JsError ''boom''))),
      take 1 (upsert_commands store0 params25))"
  using upsert_aborts [of 0 store0 params25 remote_down "[]" "JsError ''boom''"]
  by (simp add: remote_down_def length_commands25)

lemma upsert25_second:
  "upsert remote_fails_second store0 params25 [] =
     (Inl (upsert_failed params25 (upsert_failed params25 (JsError ''boom''))),
      take 2 (upsert_commands store0 params25))"
  using upsert_aborts [of 1 store0 params25 remote_fails_second "[]" "JsError ''boom''"]
  by (simp add: remote_fails_second_def length_commands25 numeral_2_eq_2)

text \<open>
  Claim C1. A successful \<open>upsert\<close> returns \<open>params.ids || []\<close>: the supplied ids when there
  are some (lemma \<open>upsert_success_sent\<close>), and the empty array when ids are omitted. With 25
  vectors and no ids, against a remote that accepts every write, the call returns \<open>[]\<close>,
  not the 25 generated keys \<open>vector_0\<close> to \<open>vector_24\<close> that it sent.
\<close>

theorem upsert_without_ids_returns_nothing:
  "ids params25 = None \<and> length (vectors params25) = 25
   \<and> fst (upsert remote_ok store0 params25 []) = Inr []"
  by (simp add: upsert25_ok) (simp add: params25_def)

text \<open>
  Claim C4, as stated for every call, fails when a write fails: with 25 vectors and a remote
  that rejects the first write, one command is issued, not \<open>\<lceil>25 / 10\<rceil> = 3\<close>.
\<close>

theorem upsert_call_count_counterexample:
  "10 < length (vectors params25)
   \<and> length (snd (upsert remote_down store0 params25 [])) = 1
   \<and> nat \<lceil>real (length (vectors params25)) / 10\<rceil> = 3"
  by (simp add: upsert25_down length_commands25 chunk_count) (simp add: params25_def)

text \<open>
  Claim C4, amended. For every \<open>upsert\<close> call that returns (no remote write fails), the
  commands issued by the call are exactly \<open>\<lceil>N / 10\<rceil>\<close> \<open>PutVectors\<close> commands for the
  store's bucket and the call's index, each with at most 10 records, and the concatenation
  of their records in issue order is the input sequence: the records built for positions
  \<open>0\<close> to \<open>N - 1\<close>, whose embeddings are \<open>params.vectors\<close>.
\<close>

theorem upsert_chunks_when_no_write_fails:
  assumes "upsert send this params sent = (Inr returned, sent')"
  shows "\<exists>cmds. sent' = sent @ cmds
          \<and> length cmds = nat \<lceil>real (length (vectors params)) / 10\<rceil>
          \<and> (\<forall>c \<in> set cmds. is_put (vectorBucketName this) (indexName params) c
                               \<and> length (put_vectors c) \<le> 10)
          \<and> concat (map put_vectors cmds) = put_input_vectors params 0 (vectors params)
          \<and> map data (concat (map put_vectors cmds)) = vectors params"
proof -
  let ?cs = "upsert_commands this params"
  have sent: "sent' = sent @ ?cs"
    using upsert_success_sent [OF assms] by simp
  have count: "length ?cs = nat \<lceil>real (length (vectors params)) / 10\<rceil>"
    by (simp add: length_upsert_commands chunk_count BATCH_SIZE_def add.commute)
  have each: "\<forall>c \<in> set ?cs. is_put (vectorBucketName this) (indexName params) c
                               \<and> length (put_vectors c) \<le> 10"
    using upsert_commands_are_puts [of _ this params] by (simp add: BATCH_SIZE_def)
  have whole: "concat (map put_vectors ?cs) = put_input_vectors params 0 (vectors params)"
    by (rule put_vectors_upsert_commands)
  have vecs: "map data (concat (map put_vectors ?cs)) = vectors params"
    by (simp only: whole map_data_put_input_vectors)
  show ?thesis
    by (intro exI [of _ ?cs] conjI) (rule sent count each whole vecs)+
qed

theorem upsert_chunks_when_no_write_fails_witness:
  "upsert remote_ok store0 params25 [] = (Inr [], upsert_commands store0 params25)
   \<and> 10 < length (vectors params25)
   \<and> (\<exists>cmds. snd (upsert remote_ok store0 params25 []) = cmds
         \<and> length cmds = 3
         \<and> map data (concat (map put_vectors cmds)) = replicate 25 [0, 1])"
  using upsert_chunks_when_no_write_fails [OF upsert25_ok]
  by (simp add: upsert25_ok chunk_count) (simp add: params25_def map_data_put_input_vectors)

text \<open>
  Claim C7. Each write is sent after the previous ones have answered (its history holds
  them all). If the writes of chunks \<open>0\<close> to \<open>k - 1\<close> succeed and the write of chunk \<open>k\<close>
  fails, the call issues the commands of chunks \<open>0\<close> to \<open>k\<close> and nothing after them, raises
  an error with code \<open>upsert_failed\<close> whose message names the index, and every command it
  issued is a \<open>PutVectors\<close> command: no delete is sent.
\<close>

theorem upsert_aborts_at_first_failure:
  assumes "k < length (upsert_commands this params)"
    and "\<forall>j<k. \<exists>r. send (sent @ take j (upsert_commands this params))
                      (upsert_commands this params ! j) = Inr r"
    and "send (sent @ take k (upsert_commands this params)) (upsert_commands this params ! k) = Inl err"
  shows "\<exists>e. upsert send this params sent =
               (Inl e, sent @ take (Suc k) (upsert_commands this params))
          \<and> code e = ''upsert_failed''
          \<and> message e = ''Failed to upsert vectors to index '' @ indexName params @ '': '' @
                           ''Failed to upsert vectors to index '' @ indexName params @ '': '' @
                           error_text err
          \<and> (\<forall>c \<in> set (take (Suc k) (upsert_commands this params)).
                 is_put (vectorBucketName this) (indexName params) c)"
proof -
  let ?e = "upsert_failed params (upsert_failed params err)"
  have run: "upsert send this params sent =
               (Inl ?e, sent @ take (Suc k) (upsert_commands this params))"
    using assms by (rule upsert_aborts)
  have code: "code ?e = ''upsert_failed''"
    by (simp add: upsert_failed_def)
  have msg: "message ?e = ''Failed to upsert vectors to index '' @ indexName params @ '': '' @
                           ''Failed to upsert vectors to index '' @ indexName params @ '': '' @
                           error_text err"
    by (simp add: upsert_failed_def)
  have puts: "\<forall>c \<in> set (take (Suc k) (upsert_commands this params)).
                 is_put (vectorBucketName this) (indexName params) c"
    using upsert_commands_are_puts [of _ this params] by (auto dest: in_set_takeD)
  show ?thesis
    by (intro exI [of _ ?e] conjI) (rule run code msg puts)+
qed

theorem upsert_aborts_at_first_failure_witness:
  "1 < length (upsert_commands store0 params25)
   \<and> remote_fails_second [] (upsert_commands store0 params25 ! 0) = Inr EmptyOutput
   \<and> remote_fails_second (take 1 (upsert_commands store0 params25))
        (upsert_commands store0 params25 ! 1) = Inl (JsError ''boom'')
   \<and> (\<exists>e. upsert remote_fails_second store0 params25 [] =
              (Inl e, take 2 (upsert_commands store0 params25))
         \<and> code e = ''upsert_failed'')
   \<and> length (snd (upsert remote_fails_second store0 params25 [])) = 2"
  using upsert_aborts_at_first_failure
          [of 1 store0 params25 remote_fails_second "[]" "JsError ''boom''"]
  by (simp add: remote_fails_second_def length_commands25 numeral_2_eq_2 upsert25_second)

lemma upsert_key_generated: "ids params = None \<Longrightarrow> upsert_key params j = ''vector_'' @ nat_to_string j"
  by (simp add: upsert_key_def)

text \<open>
  Claim C5. With ids omitted, whatever the remote does, the records carried by the write
  commands of an \<open>upsert\<close> call, taken in issue order, have at position \<open>j\<close> of the whole
  sequence the key \<open>vector_j\<close> and the \<open>j\<close>-th embedding of the input: the key is a function
  of the position in the input, not of the position in the chunk.
\<close>

theorem upsert_generated_keys:
  assumes "ids params = None"
  shows "\<exists>cmds. snd (upsert send this params sent) = sent @ cmds
          \<and> (\<forall>c \<in> set cmds. is_put (vectorBucketName this) (indexName params) c)
          \<and> (\<forall>j < length (concat (map put_vectors cmds)).
                 key (concat (map put_vectors cmds) ! j) = ''vector_'' @ nat_to_string j
               \<and> data (concat (map put_vectors cmds) ! j) = vectors params ! j)"
proof -
  let ?cs = "upsert_commands this params"
  let ?all = "put_input_vectors params 0 (vectors params)"
  obtain m where m: "m \<le> length ?cs"
    and sent: "snd (upsert send this params sent) = sent @ take m ?cs"
    using upsert_sent_prefix [of this params send sent] by blast
  have recs: "concat (map put_vectors (take m ?cs)) = take (m * BATCH_SIZE) ?all"
    using m by (rule put_vectors_take_upsert_commands)
  have puts: "\<forall>c \<in> set (take m ?cs). is_put (vectorBucketName this) (indexName params) c"
    using upsert_commands_are_puts [of _ this params] by (auto dest: in_set_takeD)
  have keys: "\<forall>j < length (concat (map put_vectors (take m ?cs))).
                 key (concat (map put_vectors (take m ?cs)) ! j) = ''vector_'' @ nat_to_string j
               \<and> data (concat (map put_vectors (take m ?cs)) ! j) = vectors params ! j"
  proof (intro allI impI)
    fix j assume "j < length (concat (map put_vectors (take m ?cs)))"
    then have j: "j < m * BATCH_SIZE" "j < length (vectors params)"
      by (simp_all add: recs)
    then have "concat (map put_vectors (take m ?cs)) ! j = ?all ! j"
      by (simp add: recs)
    also have "\<dots> = \<lparr>key = upsert_key params (0 + j), data = vectors params ! j,
                        p_metadata = Some (upsert_metadata params (0 + j))\<rparr>"
      using j(2) by (rule nth_put_input_vectors)
    finally show "key (concat (map put_vectors (take m ?cs)) ! j) = ''vector_'' @ nat_to_string j
               \<and> data (concat (map put_vectors (take m ?cs)) ! j) = vectors params ! j"
      using assms by (simp add: upsert_key_generated)
  qed
  show ?thesis
    by (intro exI [of _ "take m ?cs"] conjI) (rule sent puts keys)+
qed

theorem upsert_generated_keys_witness:
  "ids params25 = None
   \<and> (\<exists>cmds. snd (upsert remote_ok store0 params25 []) = cmds
         \<and> length (concat (map put_vectors cmds)) = 25
         \<and> key (concat (map put_vectors cmds) ! 24) = ''vector_24'')"
proof -
  have none: "ids params25 = None" by (simp add: params25_def)
  obtain cmds where cmds: "snd (upsert remote_ok store0 params25 []) = [] @ cmds"
    and keys: "\<forall>j < length (concat (map put_vectors cmds)).
                 key (concat (map put_vectors cmds) ! j) = ''vector_'' @ nat_to_string j
               \<and> data (concat (map put_vectors cmds) ! j) = vectors params25 ! j"
    using upsert_generated_keys [OF none, of remote_ok store0 "[]"] by blast
  have "cmds = upsert_commands store0 params25"
    using cmds by (simp add: upsert25_ok)
  then have len: "length (concat (map put_vectors cmds)) = 25"
    by (simp add: put_vectors_upsert_commands) (simp add: params25_def)
  then have "key (concat (map put_vectors cmds) ! 24) = ''vector_'' @ nat_to_string 24"
    using keys by simp
  then have "key (concat (map put_vectors cmds) ! 24) = ''vector_24''"
    by (simp add: nat_to_string.simps digit_char_def)
  then show ?thesis using none cmds len by simp
qed

text \<open>
  Claim C6. The other operations wrap a remote failure once (section below). \<open>upsert\<close>
  wraps it twice: the inner \<open>catch\<close> builds an \<open>upsert_failed\<close> error around the remote
  error and throws it, and the outer \<open>catch\<close> builds a second one around the first. For one
  vector and a remote that throws \<open>Error("boom")\<close>, the details of the error the caller
  receives are an \<open>upsert_failed\<close> error, not the remote error.
\<close>

theorem upsert_failure_is_wrapped_twice:
  "upsert remote_down store0 params1 [] =
     (Inl (VectorStoreError
             ''Failed to upsert vectors to index docs: Failed to upsert vectors to index docs: boom''
             ''upsert_failed''
             (Some (VectorStoreError ''Failed to upsert vectors to index docs: boom''
                      ''upsert_failed'' (Some (JsError ''boom''))))),
      [PutVectorsCommand ''bucket'' ''docs''
         [\<lparr>key = ''a'', data = [0, 1], p_metadata = Some []\<rparr>]])"
proof -
  have len: "length (upsert_commands store0 params1) = 1"
    by (simp add: length_upsert_commands params1_def BATCH_SIZE_def)
  have "upsert remote_down store0 params1 [] =
          (Inl (upsert_failed params1 (upsert_failed params1 (JsError ''boom''))),
           [] @ take (Suc 0) (upsert_commands store0 params1))"
    by (rule upsert_aborts) (simp_all add: len remote_down_def)
  moreover have "take (Suc 0) (upsert_commands store0 params1) =
      [PutVectorsCommand ''bucket'' ''docs'' [\<lparr>key = ''a'', data = [0, 1], p_metadata = Some []\<rparr>]]"
    by (simp add: upsert_commands_def batch_command_def put_input_vectors_def upsert_key_def
          upsert_metadata_def params1_def store0_def BATCH_SIZE_def)
  moreover have "upsert_failed params1 (upsert_failed params1 (JsError ''boom'')) =
      VectorStoreError
        ''Failed to upsert vectors to index docs: Failed to upsert vectors to index docs: boom''
        ''upsert_failed''
        (Some (VectorStoreError ''Failed to upsert vectors to index docs: boom''
                 ''upsert_failed'' (Some (JsError ''boom''))))"
    by (simp add: upsert_failed_def params1_def)
  ultimately show ?thesis by simp
qed

section \<open>The other operations wrap a remote failure once\<close>

lemma createIndex_failure:
  "send sent (CreateIndexCommand (vectorBucketName this) (c_indexName params) ''float32''
       (c_dimension params) (case c_metric params of Some m \<Rightarrow> m | None \<Rightarrow> cosine)) = Inl e \<Longrightarrow>
   \<exists>m sent'. createIndex send this params sent =
     (Inl (VectorStoreError m ''index_creation_failed'' (Some e)), sent')"
  by (simp add: createIndex_def client_send_def)

lemma query_failure:
  "send sent (query_command this params) = Inl e \<Longrightarrow>
   \<exists>m sent'. query send this params sent = (Inl (VectorStoreError m ''query_failed'' (Some e)), sent')"
  by (simp add: query_def client_send_def)

lemma describeIndex_failure:
  "send sent (GetIndexCommand (vectorBucketName this) name) = Inl e \<Longrightarrow>
   \<exists>m sent'. describeIndex send this name sent =
     (Inl (VectorStoreError m ''describe_failed'' (Some e)), sent')"
  by (simp add: describeIndex_def client_send_def)

lemma deleteIndex_failure:
  "send sent (DeleteIndexCommand (vectorBucketName this) name) = Inl e \<Longrightarrow>
   \<exists>m sent'. deleteIndex send this name sent =
     (Inl (VectorStoreError m ''delete_index_failed'' (Some e)), sent')"
  by (simp add: deleteIndex_def client_send_def)

lemma listIndexes_failure:
  "send sent (ListIndexesCommand (vectorBucketName this)) = Inl e \<Longrightarrow>
   \<exists>m sent'. listIndexes send this sent =
     (Inl (VectorStoreError m ''list_indexes_failed'' (Some e)), sent')"
  by (simp add: listIndexes_def client_send_def)

lemma updateVector_failure:
  "u_vector (update params) = Some v \<Longrightarrow>
   send sent (PutVectorsCommand (vectorBucketName this) (uv_indexName params)
      [\<lparr>key = uv_id params, data = v, p_metadata = u_metadata (update params)\<rparr>]) = Inl e \<Longrightarrow>
   \<exists>m sent'. updateVector send this params sent =
     (Inl (VectorStoreError m ''update_vector_failed'' (Some e)), sent')"
  by (simp add: updateVector_def updateVector_try_def client_send_def)

lemma deleteVector_failure:
  "send sent (DeleteVectorsCommand (vectorBucketName this) (dv_indexName params) [dv_id params])
     = Inl e \<Longrightarrow>
   \<exists>m sent'. deleteVector send this params sent =
     (Inl (VectorStoreError m ''delete_vector_failed'' (Some e)), sent')"
  by (simp add: deleteVector_def client_send_def)

end
